theory Spec2Isabelle
  imports Main "HOL-Library.Char_ord" "HOL-Library.List_Lexorder" "HOL-Library.Multiset"
begin

section \<open>Values, dictionaries and the world outside the script\<close>

text \<open>
  The script keeps its whole store as the value \<^verbatim>\<open>json.load\<close> hands back, so the
  store is modelled as that value: a tree of \<^verbatim>\<open>None\<close>, booleans, numbers, strings,
  lists and dictionaries with string keys. Numbers are the integers; the script looks
  at a number only when it sorts the chat list.
  A Python dictionary keeps its keys in insertion order, so it is an association list;
  a dictionary never holds a key twice, which is the predicate \<open>dict_ok\<close> below.
\<close>

datatype json =
    JNull
  | JBool bool
  | JNum int
  | JStr string
  | JList "json list"
  | JDict "(string \<times> json) list"

type_synonym dict = "(string \<times> json) list"

datatype py_error =
    JSONDecodeError
  | UnicodeDecodeError
  | RecursionError
  | ValueError
  | AttributeError
  | EOFError
  | KeyError
  | IndexError
  | TypeError

definition dict_ok :: "dict \<Rightarrow> bool" where
  "dict_ok d = distinct (map fst d)"

definition dict_keys :: "dict \<Rightarrow> string list" where
  "dict_keys d = map fst d"

text \<open>\<^verbatim>\<open>k in d\<close>\<close>

definition dict_contains :: "dict \<Rightarrow> string \<Rightarrow> bool" where
  "dict_contains d k = (k \<in> set (map fst d))"

text \<open>\<^verbatim>\<open>d.get(k)\<close>: the value, or \<^verbatim>\<open>None\<close>.\<close>

definition dict_get :: "dict \<Rightarrow> string \<Rightarrow> json option" where
  "dict_get d k = map_of d k"

text \<open>
  \<^verbatim>\<open>d[k] = v\<close>: a key already present keeps its place and takes the new value, a new
  key goes to the end.
\<close>

fun dict_setitem :: "dict \<Rightarrow> string \<Rightarrow> json \<Rightarrow> dict" where
  "dict_setitem [] k v = [(k, v)]"
| "dict_setitem ((k', v') # d) k v =
     (if k' = k then (k, v) # d else (k', v') # dict_setitem d k v)"

text \<open>\<^verbatim>\<open>d.pop(k)\<close>: the value and the dictionary without the key; KeyError without it.\<close>

fun dict_pop :: "dict \<Rightarrow> string \<Rightarrow> py_error + (json \<times> dict)" where
  "dict_pop [] k = Inl KeyError"
| "dict_pop ((k', v') # d) k =
     (if k' = k then Inr (v', d)
      else (case dict_pop d k of
              Inl e \<Rightarrow> Inl e
            | Inr (v, d') \<Rightarrow> Inr (v, (k', v') # d')))"

text \<open>\<^verbatim>\<open>del d[k]\<close>\<close>

definition dict_delitem :: "dict \<Rightarrow> string \<Rightarrow> py_error + dict" where
  "dict_delitem d k = (case dict_pop d k of Inl e \<Rightarrow> Inl e | Inr (v, d') \<Rightarrow> Inr d')"

text \<open>
  What a file holds, as far as reading it with \<^verbatim>\<open>open(..., "r")\<close> and
  \<^verbatim>\<open>json.load\<close> can tell:
  \<^item> \<open>Blank\<close>: nothing at all;
  \<^item> \<open>Malformed\<close>: text that is not JSON;
  \<^item> \<open>Undecodable\<close>: bytes that are not text in the encoding the file is opened with;
  \<^item> \<open>Too_deep\<close>: text nested deeper than the interpreter recurses, JSON or not;
  \<^item> \<open>Huge_integer\<close>: JSON text with an integer of more digits than the
    interpreter converts;
  \<^item> \<open>Document j\<close>: the text of the JSON value \<open>j\<close>.
  \<^verbatim>\<open>json.dump\<close> writes the text of the value it is given, and \<^verbatim>\<open>json.load\<close>
  reads that value back.
\<close>

datatype contents = Blank | Malformed | Undecodable | Too_deep | Huge_integer | Document json

text \<open>
  The world outside the script: the files by name, and the clock. Every call of
  \<^verbatim>\<open>datetime.now()\<close> is one more reading of the clock; \<open>clock w n\<close> is the ISO text
  of reading number \<open>n\<close>, and \<open>reads w\<close> counts the readings taken so far.
\<close>

record world =
  files :: "string \<rightharpoonup> contents"
  clock :: "nat \<Rightarrow> string"
  reads :: nat

definition CHAT_HISTORY_FILE :: string where
  "CHAT_HISTORY_FILE = ''chats.json''"

text \<open>\<^verbatim>\<open>datetime.now().isoformat()\<close>\<close>

definition datetime_now_isoformat :: "world \<Rightarrow> string \<times> world" where
  "datetime_now_isoformat w = (clock w (reads w), w\<lparr>reads := Suc (reads w)\<rparr>)"

text \<open>\<^verbatim>\<open>{"created_at": ts, "messages": msgs}\<close>\<close>

definition conversation :: "string \<Rightarrow> json \<Rightarrow> json" where
  "conversation ts msgs = JDict [(''created_at'', JStr ts), (''messages'', msgs)]"

text \<open>\<^verbatim>\<open>{"Chat 1": {"created_at": datetime.now().isoformat(), "messages": []}}\<close>\<close>

definition default_conversations :: "world \<Rightarrow> dict \<times> world" where
  "default_conversations w =
     (let (ts, w') = datetime_now_isoformat w
      in ([(''Chat 1'', conversation ts (JList []))], w'))"

section \<open>The conversation store\<close>

text \<open>
  \<^verbatim>\<open>os.replace(src, dst)\<close>. The script calls it only on the temporary file it has
  just written.
\<close>

definition os_replace :: "string \<Rightarrow> string \<Rightarrow> world \<Rightarrow> world" where
  "os_replace src dst w = w\<lparr>files := (files w)(dst := files w src, src := None)\<rparr>"

definition save_conversations :: "dict \<Rightarrow> world \<Rightarrow> world" where
  "save_conversations conversations w =
     (let tmp_file = CHAT_HISTORY_FILE @ ''.tmp'';
          w1 = w\<lparr>files := (files w)(tmp_file \<mapsto> Document (JDict conversations))\<rparr>
      in os_replace tmp_file CHAT_HISTORY_FILE w1)"

text \<open>
  \<^verbatim>\<open>json.load(f)\<close> on the opened file. Only the first two failures are a
  \<^verbatim>\<open>JSONDecodeError\<close>; a plain \<^verbatim>\<open>ValueError\<close> is not one.
\<close>

definition json_load :: "contents \<Rightarrow> py_error + json" where
  "json_load c =
     (case c of
        Blank \<Rightarrow> Inl JSONDecodeError
      | Malformed \<Rightarrow> Inl JSONDecodeError
      | Undecodable \<Rightarrow> Inl UnicodeDecodeError
      | Too_deep \<Rightarrow> Inl RecursionError
      | Huge_integer \<Rightarrow> Inl ValueError
      | Document j \<Rightarrow> Inr j)"

text \<open>\<^verbatim>\<open>data.items()\<close>: only a dictionary has the attribute.\<close>

definition items :: "json \<Rightarrow> py_error + dict" where
  "items data = (case data of JDict d \<Rightarrow> Inr d | _ \<Rightarrow> Inl AttributeError)"

text \<open>\<^verbatim>\<open>isinstance(content, list)\<close>\<close>

definition is_list :: "json \<Rightarrow> bool" where
  "is_list content = (case content of JList ms \<Rightarrow> True | _ \<Rightarrow> False)"

text \<open>
  The migration loop. It walks the items of \<open>data\<close> while assigning into \<open>data\<close>; an
  assignment to a key already present changes neither the keys nor their order, so
  the items it walks are those it started with.
\<close>

fun migrate :: "dict \<Rightarrow> dict \<Rightarrow> bool \<Rightarrow> world \<Rightarrow> dict \<times> bool \<times> world" where
  "migrate [] data migrated w = (data, migrated, w)"
| "migrate ((chat_name, content) # rest) data migrated w =
     (if is_list content then
        (let (ts, w') = datetime_now_isoformat w
         in migrate rest (dict_setitem data chat_name (conversation ts content)) True w')
      else migrate rest data migrated w)"

text \<open>The body of the \<^verbatim>\<open>try\<close> in \<^verbatim>\<open>load_conversations\<close>.\<close>

definition load_try :: "contents \<Rightarrow> world \<Rightarrow> py_error + (dict \<times> world)" where
  "load_try c w =
     (case json_load c of
        Inl e \<Rightarrow> Inl e
      | Inr data \<Rightarrow>
          (case items data of
             Inl e \<Rightarrow> Inl e
           | Inr its \<Rightarrow>
               (let (data1, migrated1, w1) = migrate its its False w;
                    (data2, migrated2, w2) =
                       (if data1 = [] then
                          (let (d, w') = default_conversations w1 in (d, True, w'))
                        else (data1, migrated1, w1));
                    w3 = (if migrated2 then save_conversations data2 w2 else w2)
                in Inr (data2, w3))))"

text \<open>\<^verbatim>\<open>except (json.JSONDecodeError, AttributeError, EOFError)\<close>\<close>

definition caught :: "py_error \<Rightarrow> bool" where
  "caught e = (e = JSONDecodeError \<or> e = AttributeError \<or> e = EOFError)"

definition load_conversations :: "world \<Rightarrow> py_error + (dict \<times> world)" where
  "load_conversations w =
     (case files w CHAT_HISTORY_FILE of
        None \<Rightarrow> Inr (default_conversations w)
      | Some c \<Rightarrow>
          (case load_try c w of
             Inr r \<Rightarrow> Inr r
           | Inl e \<Rightarrow> if caught e then Inr (default_conversations w) else Inl e))"

section \<open>The chat controller\<close>

text \<open>
  The part of \<^verbatim>\<open>st.session_state\<close> the handlers below read and write, and what a
  handler shows to the user.
\<close>

record session =
  conversations :: dict
  current_chat :: string
  show_rename_dialog_for :: "string option"

datatype notice = St_error string | St_warning string | St_toast string

text \<open>\<^verbatim>\<open>str(n)\<close> for a natural number: its decimal digits.\<close>

definition digit :: "nat \<Rightarrow> char" where
  "digit n = ''0123456789'' ! n"

fun str_nat :: "nat \<Rightarrow> string" where
  "str_nat n = (if n < 10 then [digit n] else str_nat (n div 10) @ [digit (n mod 10)])"

declare str_nat.simps [simp del]

text \<open>\<^verbatim>\<open>f"Chat {n}"\<close>\<close>

definition chat_label :: "nat \<Rightarrow> string" where
  "chat_label n = ''Chat '' @ str_nat n"

text \<open>
  The decimal digits of a number name it, so two labels are equal only for the same
  number. The search for a free label below ends for that reason.
\<close>

lemma digit_inj: "a < 10 \<Longrightarrow> b < 10 \<Longrightarrow> digit a = digit b \<Longrightarrow> a = b"
  unfolding digit_def by (simp add: nth_eq_iff_index_eq)

lemma str_nat_not_Nil: "str_nat n \<noteq> []"
  by (subst str_nat.simps) simp

lemma str_nat_unfold_small: "n < 10 \<Longrightarrow> str_nat n = [digit n]"
  by (subst str_nat.simps) simp

lemma str_nat_unfold_big:
  "\<not> n < 10 \<Longrightarrow> str_nat n = str_nat (n div 10) @ [digit (n mod 10)]"
  by (subst str_nat.simps) simp

lemma str_nat_inj: "str_nat m = str_nat n \<Longrightarrow> m = n"
proof (induction m arbitrary: n rule: str_nat.induct)
  case (1 m)
  show ?case
  proof (cases "m < 10")
    case small_m: True
    show ?thesis
    proof (cases "n < 10")
      case True
      with small_m "1.prems" show ?thesis
        by (simp add: str_nat_unfold_small digit_inj)
    next
      case False
      with small_m "1.prems" show ?thesis
        using str_nat_not_Nil [of "n div 10"]
        by (simp add: str_nat_unfold_small str_nat_unfold_big)
    qed
  next
    case big_m: False
    show ?thesis
    proof (cases "n < 10")
      case True
      with big_m "1.prems" show ?thesis
        using str_nat_not_Nil [of "m div 10"]
        by (simp add: str_nat_unfold_small str_nat_unfold_big)
    next
      case False
      with big_m "1.prems"
      have "str_nat (m div 10) = str_nat (n div 10)" "digit (m mod 10) = digit (n mod 10)"
        by (simp_all add: str_nat_unfold_big)
      with "1.IH" [OF big_m] have "m div 10 = n div 10" "m mod 10 = n mod 10"
        by (auto intro: digit_inj)
      then show ?thesis by (metis div_mult_mod_eq)
    qed
  qed
qed

lemma chat_label_inj: "chat_label m = chat_label n \<Longrightarrow> m = n"
  by (simp add: chat_label_def str_nat_inj)

text \<open>The labels from number \<open>i\<close> on that are taken.\<close>

definition later_labels :: "dict \<Rightarrow> nat \<Rightarrow> string set" where
  "later_labels convs i =
     {k \<in> set (map fst convs). \<exists>j\<ge>i. k = chat_label (length convs + j)}"

lemma later_labels_step:
  assumes "dict_contains convs (chat_label (length convs + i))"
  shows "card (later_labels convs (Suc i)) < card (later_labels convs i)"
proof (rule psubset_card_mono)
  show "finite (later_labels convs i)" by (simp add: later_labels_def)
  have "chat_label (length convs + i) \<in> later_labels convs i"
    using assms by (auto simp: later_labels_def dict_contains_def)
  moreover have "chat_label (length convs + i) \<notin> later_labels convs (Suc i)"
    by (auto simp: later_labels_def dest: chat_label_inj)
  moreover have "later_labels convs (Suc i) \<subseteq> later_labels convs i"
    using Suc_leD by (fastforce simp: later_labels_def)
  ultimately show "later_labels convs (Suc i) \<subset> later_labels convs i" by blast
qed

text \<open>
  The loop of the "New Chat" button, entered with \<open>i = 1\<close>:
  \<^verbatim>\<open>while True: name = f"Chat {len(conversations) + i}"; if name not in conversations: break; i += 1\<close>
\<close>

function unique_name :: "dict \<Rightarrow> nat \<Rightarrow> string" where
  "unique_name convs i =
     (if \<not> dict_contains convs (chat_label (length convs + i))
      then chat_label (length convs + i)
      else unique_name convs (i + 1))"
  by pat_completeness auto
termination
  by (relation "measure (\<lambda>(convs, i). card (later_labels convs i))")
     (simp_all add: later_labels_step)

declare unique_name.simps [simp del]

definition new_chat_button :: "session \<Rightarrow> world \<Rightarrow> session \<times> world" where
  "new_chat_button s w =
     (let new_chat_name = unique_name (conversations s) 1;
          (ts, w1) = datetime_now_isoformat w;
          convs = dict_setitem (conversations s) new_chat_name (conversation ts (JList []))
      in (s\<lparr>conversations := convs, current_chat := new_chat_name\<rparr>,
          save_conversations convs w1))"

text \<open>The button of a chat in the list, and the "Rename" entry of its menu.\<close>

definition select_button :: "string \<Rightarrow> session \<Rightarrow> session" where
  "select_button chat_name s = s\<lparr>current_chat := chat_name\<rparr>"

definition rename_dialog_button :: "string \<Rightarrow> session \<Rightarrow> session" where
  "rename_dialog_button chat_name s = s\<lparr>show_rename_dialog_for := Some chat_name\<rparr>"

text \<open>The sign U+26A0 U+FE0F of the toast, in UTF-8.\<close>

definition warning_sign :: string where
  "warning_sign = [CHR 0xE2, CHR 0x9A, CHR 0xA0, CHR 0xEF, CHR 0xB8, CHR 0x8F]"

text \<open>\<^verbatim>\<open>list(d.keys())[0]\<close>\<close>

definition first_key :: "dict \<Rightarrow> py_error + string" where
  "first_key d = (case dict_keys d of [] \<Rightarrow> Inl IndexError | k # ks \<Rightarrow> Inr k)"

text \<open>The "Delete" entry of the menu of chat \<open>chat_name\<close>.\<close>

definition delete_chat_button ::
  "string \<Rightarrow> session \<Rightarrow> world \<Rightarrow> py_error + (session \<times> world \<times> notice list)" where
  "delete_chat_button chat_name s w =
     (if length (conversations s) > 1 then
        (case dict_delitem (conversations s) chat_name of
           Inl e \<Rightarrow> Inl e
         | Inr convs \<Rightarrow>
             (case first_key convs of
                Inl e \<Rightarrow> Inl e
              | Inr k \<Rightarrow>
                  Inr (s\<lparr>conversations := convs, current_chat := k\<rparr>,
                       save_conversations convs w, [])))
      else Inr (s, w, [St_toast (warning_sign @ '' Cannot delete the last chat.'')]))"

text \<open>
  The rename form. It is drawn only while \<^verbatim>\<open>show_rename_dialog_for\<close> is truthy, that
  is, neither \<^verbatim>\<open>None\<close> nor the empty string. \<open>new_name\<close> is the text of the input
  field; \<open>submit_button\<close> and \<open>cancel_button\<close> say which button was pressed.
  \<^verbatim>\<open>st.rerun()\<close> ends the run of the script, so nothing after it is executed.
\<close>

definition cancel_check :: "bool \<Rightarrow> session \<times> world \<times> notice list \<Rightarrow> session \<times> world \<times> notice list" where
  "cancel_check cancel_button r =
     (case r of (s, w, ns) \<Rightarrow>
        if cancel_button then (s\<lparr>show_rename_dialog_for := None\<rparr>, w, ns) else (s, w, ns))"

definition rename_form ::
  "string \<Rightarrow> bool \<Rightarrow> bool \<Rightarrow> session \<Rightarrow> world \<Rightarrow> py_error + (session \<times> world \<times> notice list)" where
  "rename_form new_name submit_button cancel_button s w =
     (case show_rename_dialog_for s of
        None \<Rightarrow> Inr (s, w, [])
      | Some chat_to_rename \<Rightarrow>
          if chat_to_rename = [] then Inr (s, w, [])
          else if submit_button then
            (if new_name \<noteq> [] \<and> new_name \<noteq> chat_to_rename then
               (if dict_contains (conversations s) new_name then
                  Inr (cancel_check cancel_button
                         (s, w, [St_error ''A chat with this name already exists.'']))
                else
                  (case dict_pop (conversations s) chat_to_rename of
                     Inl e \<Rightarrow> Inl e
                   | Inr (old_data, convs1) \<Rightarrow>
                       (let convs2 = dict_setitem convs1 new_name old_data;
                            cur = (if current_chat s = chat_to_rename then new_name
                                   else current_chat s)
                        in Inr (s\<lparr>conversations := convs2, current_chat := cur,
                                   show_rename_dialog_for := None\<rparr>,
                                save_conversations convs2 w, []))))
             else if new_name = chat_to_rename then
               Inr (s\<lparr>show_rename_dialog_for := None\<rparr>, w,
                    [St_warning ''New name is the same as the old name.''])
             else
               Inr (cancel_check cancel_button
                      (s, w, [St_error ''Chat name cannot be empty.''])))
          else Inr (cancel_check cancel_button (s, w, [])))"

text \<open>
  The sort key of the chat list, \<^verbatim>\<open>item[1].get("created_at", datetime.min.isoformat())\<close>.
  Only a dictionary has \<^verbatim>\<open>get\<close>.
\<close>

definition created_at_key :: "string \<times> json \<Rightarrow> py_error + json" where
  "created_at_key item =
     (case snd item of
        JDict d \<Rightarrow>
          Inr (case dict_get d ''created_at'' of
                 None \<Rightarrow> JStr ''0001-01-01T00:00:00''
               | Some v \<Rightarrow> v)
      | _ \<Rightarrow> Inl AttributeError)"

fun created_at_keys :: "dict \<Rightarrow> py_error + json list" where
  "created_at_keys [] = Inr []"
| "created_at_keys (item # rest) =
     (case created_at_key item of
        Inl e \<Rightarrow> Inl e
      | Inr k \<Rightarrow> (case created_at_keys rest of Inl e \<Rightarrow> Inl e | Inr ks \<Rightarrow> Inr (k # ks)))"

fun str_keys :: "json list \<Rightarrow> string list option" where
  "str_keys [] = Some []"
| "str_keys (JStr t # ks) = (case str_keys ks of None \<Rightarrow> None | Some ts \<Rightarrow> Some (t # ts))"
| "str_keys (k # ks) = None"

text \<open>
  \<^verbatim>\<open>sorted(xs, key=key, reverse=True)\<close>. Python's sort is stable, and it keeps equal
  keys in their original order under \<^verbatim>\<open>reverse=True\<close> as well: the list is reversed,
  sorted in ascending order, and reversed again. Strings compare by code point, which on
  UTF-8 text is the order of the bytes.
\<close>

definition sorted_reverse :: "('a \<Rightarrow> 'k::linorder) \<Rightarrow> 'a list \<Rightarrow> 'a list" where
  "sorted_reverse key xs = rev (sort_key key (rev xs))"

text \<open>The keys as numbers, when all of them are: a boolean is the integer 0 or 1.\<close>

fun num_keys :: "json list \<Rightarrow> int list option" where
  "num_keys [] = Some []"
| "num_keys (JNum n # ks) = (case num_keys ks of None \<Rightarrow> None | Some ns \<Rightarrow> Some (n # ns))"
| "num_keys (JBool b # ks) =
     (case num_keys ks of None \<Rightarrow> None | Some ns \<Rightarrow> Some ((if b then 1 else 0) # ns))"
| "num_keys (k # ks) = None"

text \<open>
  The chat list of the sidebar. Python computes every key before it compares any. It
  orders strings among themselves, as in every store the script itself writes, and
  numbers among themselves; with at most one chat nothing is compared. Two or more keys
  of mixed types, or \<^verbatim>\<open>None\<close> or a dictionary among them, raise TypeError at the
  first comparison that meets them. (Lists as keys are reported as TypeError as well;
  Python orders those whose elements it can order.)
\<close>

definition sorted_chats :: "dict \<Rightarrow> py_error + dict" where
  "sorted_chats convs =
     (case created_at_keys convs of
        Inl e \<Rightarrow> Inl e
      | Inr ks \<Rightarrow>
          (case str_keys ks of
             Some ts \<Rightarrow> Inr (map snd (sorted_reverse fst (zip ts convs)))
           | None \<Rightarrow>
               (case num_keys ks of
                  Some ns \<Rightarrow> Inr (map snd (sorted_reverse fst (zip ns convs)))
                | None \<Rightarrow> if length convs \<le> 1 then Inr convs else Inl TypeError)))"

section \<open>The responder\<close>

text \<open>
  What the call to the model's API does, seen from the script: it answers with a
  response, of which the script reads \<^verbatim>\<open>response.text\<close>, a string or \<^verbatim>\<open>None\<close> when
  the response carries no text; or it raises an exception \<open>e\<close>, of which the script
  uses \<^verbatim>\<open>str(e)\<close> only.
\<close>

datatype api_outcome = Response_text "string option" | Raised string

text \<open>\<^verbatim>\<open>hay.startswith(needle)\<close> and \<^verbatim>\<open>needle in hay\<close>\<close>

fun starts_with :: "string \<Rightarrow> string \<Rightarrow> bool" where
  "starts_with [] hay = True"
| "starts_with (x # xs) [] = False"
| "starts_with (x # xs) (y # ys) = (x = y \<and> starts_with xs ys)"

fun str_in :: "string \<Rightarrow> string \<Rightarrow> bool" where
  "str_in needle [] = (needle = [])"
| "str_in needle (y # ys) = (starts_with needle (y # ys) \<or> str_in needle ys)"

text \<open>The sign U+274C, in UTF-8.\<close>

definition cross_mark :: string where
  "cross_mark = [CHR 0xE2, CHR 0x9D, CHR 0x8C]"

definition missing_key_text :: string where
  "missing_key_text =
     cross_mark @ '' Error: GEMINI_API_KEY not found. Please set it in your environment.''"

definition error_prefix :: string where
  "error_prefix = warning_sign @ '' Error: ''"

text \<open>
  \<open>API_KEY\<close> is what \<^verbatim>\<open>os.getenv\<close> gave at start-up; \<open>generate_content\<close> stands for
  the client, created with the key and asked with the prompt. The result is what the
  function returns: a string, or \<^verbatim>\<open>None\<close>.
\<close>

definition get_gemini_response ::
  "string option \<Rightarrow> (string \<Rightarrow> string \<Rightarrow> api_outcome) \<Rightarrow> string \<Rightarrow> string option" where
  "get_gemini_response API_KEY generate_content prompt =
     (case API_KEY of
        None \<Rightarrow> Some missing_key_text
      | Some k \<Rightarrow>
          if k = [] then Some missing_key_text
          else
            (case generate_content k prompt of
               Response_text t \<Rightarrow> t
             | Raised e \<Rightarrow>
                 (let error_text = error_prefix @ e
                  in if str_in ''API_KEY_INVALID'' e then
                       Some (error_text @ [CHR 0x0A]
                               @ ''Reminder: Use a valid API key from Google AI Studio.'')
                     else if str_in ''PERMISSION_DENIED'' e then
                       Some (error_text @ [CHR 0x0A]
                               @ ''Your API key may not have access to Gemini API.'')
                     else Some error_text)))"

section \<open>A session of the script\<close>

text \<open>
  The first run of a session: \<^verbatim>\<open>conversations\<close> is loaded, replaced by the default
  when empty, and the first chat becomes the current one.
\<close>

definition init_session :: "world \<Rightarrow> py_error + (session \<times> world)" where
  "init_session w =
     (case load_conversations w of
        Inl e \<Rightarrow> Inl e
      | Inr (convs, w1) \<Rightarrow>
          (let (convs2, w2) = (if convs = [] then default_conversations w1 else (convs, w1))
           in case first_key convs2 of
                Inl e \<Rightarrow> Inl e
              | Inr k \<Rightarrow>
                  Inr (\<lparr>conversations = convs2, current_chat = k,
                        show_rename_dialog_for = None\<rparr>, w2)))"

text \<open>What the user can do in the sidebar and the rename form, one action per run.\<close>

datatype event =
    New_chat
  | Select string
  | Open_rename string
  | Delete string
  | Rename_form string bool bool

definition handle ::
  "event \<Rightarrow> session \<Rightarrow> world \<Rightarrow> py_error + (session \<times> world \<times> notice list)" where
  "handle e s w =
     (case e of
        New_chat \<Rightarrow> (let (s', w') = new_chat_button s w in Inr (s', w', []))
      | Select chat_name \<Rightarrow> Inr (select_button chat_name s, w, [])
      | Open_rename chat_name \<Rightarrow> Inr (rename_dialog_button chat_name s, w, [])
      | Delete chat_name \<Rightarrow> delete_chat_button chat_name s w
      | Rename_form new_name submit_button cancel_button \<Rightarrow>
          rename_form new_name submit_button cancel_button s w)"

section \<open>Notions of the specification\<close>

text \<open>
  The canonical shape of a conversation: a dictionary of exactly the two keys
  \<^verbatim>\<open>created_at\<close>, a string, and \<^verbatim>\<open>messages\<close>, a list.
\<close>

definition canonical :: "json \<Rightarrow> bool" where
  "canonical v =
     (case v of
        JDict r \<Rightarrow>
          (case (dict_get r ''created_at'', dict_get r ''messages'') of
             (Some (JStr ts), Some (JList ms)) \<Rightarrow> length r = 2
           | _ \<Rightarrow> False)
      | _ \<Rightarrow> False)"

text \<open>The number of legacy entries, bare lists, in a store.\<close>

definition legacy_count :: "dict \<Rightarrow> nat" where
  "legacy_count d = length (filter (\<lambda>item. is_list (snd item)) d)"

text \<open>
  What migration is to produce, read off the specification: every bare list, in its
  place, wrapped with the clock reading taken for it; everything else as it was.
\<close>

fun migrated_items :: "(nat \<Rightarrow> string) \<Rightarrow> nat \<Rightarrow> dict \<Rightarrow> dict" where
  "migrated_items clk n [] = []"
| "migrated_items clk n ((k, v) # rest) =
     (if is_list v then (k, conversation (clk n) v) # migrated_items clk (Suc n) rest
      else (k, v) # migrated_items clk n rest)"

text \<open>
  A conversation the chat list can sort: a dictionary whose \<^verbatim>\<open>created_at\<close> is a
  string or missing; and the creation time it is sorted by.
\<close>

definition sortable :: "string \<times> json \<Rightarrow> bool" where
  "sortable item =
     (case snd item of
        JDict d \<Rightarrow>
          (case dict_get d ''created_at'' of
             None \<Rightarrow> True | Some (JStr t) \<Rightarrow> True | _ \<Rightarrow> False)
      | _ \<Rightarrow> False)"

definition created_at_of :: "string \<times> json \<Rightarrow> string" where
  "created_at_of item =
     (case snd item of
        JDict d \<Rightarrow>
          (case dict_get d ''created_at'' of Some (JStr t) \<Rightarrow> t | _ \<Rightarrow> ''0001-01-01T00:00:00'')
      | _ \<Rightarrow> ''0001-01-01T00:00:00'')"

text \<open>A clock and a world to run the functions on: no file yet, no reading taken.\<close>

definition sample_clock :: "nat \<Rightarrow> string" where
  "sample_clock n = ''2024-01-01T00:00:0'' @ str_nat n"

definition sample_world :: world where
  "sample_world = \<lparr>files = Map.empty, clock = sample_clock, reads = 0\<rparr>"

definition sample_message :: json where
  "sample_message =
     JDict [(''role'', JStr ''user''), (''content'', JStr ''hi''), (''type'', JStr ''text'')]"

definition sample_legacy :: dict where
  "sample_legacy =
     [(''Chat 1'', JList [sample_message]),
      (''Chat 2'',
       JDict [(''created_at'', JStr ''2023-05-05T10:00:00''), (''messages'', JList [])]),
      (''Chat 3'', JList [])]"

definition sample_store :: dict where
  "sample_store =
     [(''Chat 1'', conversation ''2024-01-01T00:00:00'' (JList [sample_message])),
      (''Chat 2'', conversation ''2024-03-01T00:00:00'' (JList [])),
      (''Chat 3'', conversation ''2024-01-01T00:00:00'' (JList []))]"

definition sample_session :: session where
  "sample_session =
     \<lparr>conversations = sample_store, current_chat = ''Chat 1'',
      show_rename_dialog_for = Some ''Chat 1''\<rparr>"

text \<open>
  A client that answers one key and rejects every other, and a client whose responses
  carry no text.
\<close>

definition sample_api :: "string \<Rightarrow> string \<Rightarrow> api_outcome" where
  "sample_api k prompt =
     (if k = ''good'' then Response_text (Some (''You said: '' @ prompt))
      else if k = ''slow'' then Raised ''504 deadline exceeded''
      else if k = ''denied'' then Raised ''403 PERMISSION_DENIED''
      else Raised ''400 API_KEY_INVALID'')"

definition silent_api :: "string \<Rightarrow> string \<Rightarrow> api_outcome" where
  "silent_api k prompt = Response_text None"

section \<open>Loading without usable data\<close>

text \<open>
  When the history file is missing, holds nothing, or holds text that is not JSON,
  loading returns exactly one conversation, named "Chat 1", with an empty message list
  and the clock's current reading as its creation time; nothing is written.
\<close>

lemma load_without_data_default:
  assumes "files w ''chats.json'' = None \<or> files w ''chats.json'' = Some Blank
           \<or> files w ''chats.json'' = Some Malformed"
  shows "load_conversations w =
           Inr ([(''Chat 1'',
                  JDict [(''created_at'', JStr (clock w (reads w))), (''messages'', JList [])])],
                w\<lparr>reads := Suc (reads w)\<rparr>)"
  using assms
  by (auto simp: load_conversations_def load_try_def json_load_def caught_def
        default_conversations_def datetime_now_isoformat_def conversation_def
        CHAT_HISTORY_FILE_def)

lemma load_without_data_example:
  "load_conversations (sample_world\<lparr>files := [''chats.json'' \<mapsto> Malformed]\<rparr>) =
     Inr ([(''Chat 1'',
            JDict [(''created_at'', JStr ''2024-01-01T00:00:00''), (''messages'', JList [])])],
          sample_world\<lparr>files := [''chats.json'' \<mapsto> Malformed], reads := 1\<rparr>)"
  using load_without_data_default [of "sample_world\<lparr>files := [''chats.json'' \<mapsto> Malformed]\<rparr>"]
  by (simp add: sample_world_def sample_clock_def str_nat_unfold_small digit_def)

text \<open>
  The \<^verbatim>\<open>except\<close> clause names \<^verbatim>\<open>JSONDecodeError\<close>, \<^verbatim>\<open>AttributeError\<close> and
  \<^verbatim>\<open>EOFError\<close>. A file that is not text, is nested too deep or holds too long an
  integer makes \<^verbatim>\<open>json.load\<close> raise another exception, which leaves the function.
\<close>

lemma load_raises:
  "files w ''chats.json'' = Some Undecodable \<Longrightarrow> load_conversations w = Inl UnicodeDecodeError"
  "files w ''chats.json'' = Some Too_deep \<Longrightarrow> load_conversations w = Inl RecursionError"
  "files w ''chats.json'' = Some Huge_integer \<Longrightarrow> load_conversations w = Inl ValueError"
  by (simp_all add: load_conversations_def load_try_def json_load_def caught_def
        CHAT_HISTORY_FILE_def)

text \<open>
  C1. Loading is to return the default store, one empty conversation named "Chat 1",
  whenever the history file is missing, empty or not valid JSON. It does so for a
  missing file, an empty file and text that is not JSON (above). For a file whose bytes
  are not text in the encoding it is opened with, which is not valid JSON either, it
  returns nothing: the \<^verbatim>\<open>UnicodeDecodeError\<close> of reading it is not among the exceptions
  the function catches.
\<close>

theorem load_undecodable_raises:
  "load_conversations (sample_world\<lparr>files := [''chats.json'' \<mapsto> Undecodable]\<rparr>)
     = Inl UnicodeDecodeError"
  by (simp add: load_conversations_def load_try_def json_load_def caught_def
        CHAT_HISTORY_FILE_def)

section \<open>Saving and loading\<close>

lemma saved_file [simp]:
  "files (save_conversations d w) CHAT_HISTORY_FILE = Some (Document (JDict d))"
  by (simp add: save_conversations_def os_replace_def CHAT_HISTORY_FILE_def)

lemma saved_tmp [simp]:
  "files (save_conversations d w) (CHAT_HISTORY_FILE @ ''.tmp'') = None"
  by (simp add: save_conversations_def os_replace_def CHAT_HISTORY_FILE_def)

lemma saved_clock [simp]:
  "clock (save_conversations d w) = clock w" "reads (save_conversations d w) = reads w"
  by (simp_all add: save_conversations_def os_replace_def)

lemma canonical_conversation: "is_list v \<Longrightarrow> canonical (conversation ts v)"
  by (auto simp: canonical_def conversation_def dict_get_def is_list_def split: json.splits)

lemma canonical_not_list: "canonical v \<Longrightarrow> \<not> is_list v"
  by (auto simp: canonical_def is_list_def split: json.splits)

lemma migrate_nothing:
  "\<forall>item\<in>set its. \<not> is_list (snd item) \<Longrightarrow> migrate its data m w = (data, m, w)"
  by (induction its data m w rule: migrate.induct) auto

text \<open>
  C3. Saving a store and loading it again gives the store back, and loading leaves the
  file as saving wrote it, for every store that is not empty and whose conversations
  all have the canonical shape. The empty store comes back as the default store, which
  loading also writes to the file.
\<close>

theorem save_then_load_roundtrip:
  "(x \<noteq> [] \<and> (\<forall>item\<in>set x. canonical (snd item)) \<longrightarrow>
      load_conversations (save_conversations x w) = Inr (x, save_conversations x w))
   \<and> load_conversations (save_conversations [] w) =
       Inr ([(''Chat 1'', conversation (clock w (reads w)) (JList []))],
            save_conversations [(''Chat 1'', conversation (clock w (reads w)) (JList []))]
              ((save_conversations [] w)\<lparr>reads := Suc (reads w)\<rparr>))"
proof (intro conjI impI)
  assume x: "x \<noteq> [] \<and> (\<forall>item\<in>set x. canonical (snd item))"
  then have "\<forall>item\<in>set x. \<not> is_list (snd item)"
    by (auto dest: canonical_not_list)
  then have "migrate x x False (save_conversations x w) = (x, False, save_conversations x w)"
    by (rule migrate_nothing)
  with x show "load_conversations (save_conversations x w) = Inr (x, save_conversations x w)"
    by (simp add: load_conversations_def load_try_def json_load_def items_def)
next
  show "load_conversations (save_conversations [] w) =
       Inr ([(''Chat 1'', conversation (clock w (reads w)) (JList []))],
            save_conversations [(''Chat 1'', conversation (clock w (reads w)) (JList []))]
              ((save_conversations [] w)\<lparr>reads := Suc (reads w)\<rparr>))"
    by (simp add: load_conversations_def load_try_def json_load_def items_def
          default_conversations_def datetime_now_isoformat_def)
qed

theorem save_then_load_roundtrip_witness:
  "sample_store \<noteq> []
   \<and> list_all (\<lambda>item. canonical (snd item)) sample_store
   \<and> load_conversations (save_conversations sample_store sample_world)
       = Inr (sample_store, save_conversations sample_store sample_world)"
proof -
  have h1: "sample_store \<noteq> []" by (simp add: sample_store_def)
  have h2: "\<forall>item\<in>set sample_store. canonical (snd item)"
    by (simp add: sample_store_def canonical_def conversation_def dict_get_def)
  from save_then_load_roundtrip [of sample_store sample_world] h1 h2 show ?thesis
    by (simp add: list_all_iff)
qed

theorem save_empty_then_load_counterexample:
  "load_conversations (save_conversations [] sample_world) =
     Inr ([(''Chat 1'', conversation ''2024-01-01T00:00:00'' (JList []))],
          save_conversations [(''Chat 1'', conversation ''2024-01-01T00:00:00'' (JList []))]
            (save_conversations [] sample_world\<lparr>reads := 1\<rparr>))
   \<and> load_conversations (save_conversations [] sample_world)
       \<noteq> Inr ([], save_conversations [] sample_world)"
  by (simp add: load_conversations_def load_try_def json_load_def items_def
        default_conversations_def datetime_now_isoformat_def sample_world_def
        sample_clock_def str_nat_unfold_small digit_def)

section \<open>Migration of legacy stores\<close>

lemma dict_setitem_middle:
  "k \<notin> fst ` set done \<Longrightarrow> dict_setitem (done @ (k, v) # rest) k v' = done @ (k, v') # rest"
  by (induction "done") auto

lemma migrate_in_place:
  "distinct (map fst (done @ its)) \<Longrightarrow>
   migrate its (done @ its) m w =
     (done @ migrated_items (clock w) (reads w) its,
      m \<or> (\<exists>item\<in>set its. is_list (snd item)),
      w\<lparr>reads := reads w + legacy_count its\<rparr>)"
proof (induction its arbitrary: "done" m w)
  case Nil
  then show ?case by (simp add: legacy_count_def)
next
  case (Cons item its)
  obtain k v where item: "item = (k, v)" by (cases item)
  show ?case
  proof (cases "is_list v")
    case False
    from Cons.prems item have "distinct (map fst ((done @ [(k, v)]) @ its))" by simp
    from Cons.IH [OF this, of m w] False item show ?thesis
      by (simp add: legacy_count_def)
  next
    case True
    let ?v' = "conversation (clock w (reads w)) v"
    let ?w' = "w\<lparr>reads := Suc (reads w)\<rparr>"
    from Cons.prems item have k: "k \<notin> fst ` set done" by auto
    from Cons.prems item have "distinct (map fst ((done @ [(k, ?v')]) @ its))" by simp
    from Cons.IH [OF this, of True ?w'] True item k show ?thesis
      by (simp add: legacy_count_def datetime_now_isoformat_def dict_setitem_middle)
  qed
qed

lemma migrated_items_keys: "map fst (migrated_items clk n its) = map fst its"
  by (induction clk n its rule: migrated_items.induct) auto

lemma migrated_items_length: "length (migrated_items clk n its) = length its"
  by (induction clk n its rule: migrated_items.induct) auto

lemma migrated_items_nth:
  "i < length its \<Longrightarrow>
   migrated_items clk n its ! i =
     (if is_list (snd (its ! i))
      then (fst (its ! i), conversation (clk (n + legacy_count (take i its))) (snd (its ! i)))
      else its ! i)"
proof (induction clk n its arbitrary: i rule: migrated_items.induct)
  case (1 clk n)
  then show ?case by simp
next
  case (2 clk n k v rest)
  then show ?case
    by (cases i) (auto simp: legacy_count_def)
qed

lemma load_document:
  assumes "files w CHAT_HISTORY_FILE = Some (Document (JDict d))" "dict_ok d" "d \<noteq> []"
  shows "load_conversations w =
           Inr (migrated_items (clock w) (reads w) d,
                if \<exists>item\<in>set d. is_list (snd item)
                then save_conversations (migrated_items (clock w) (reads w) d)
                       (w\<lparr>reads := reads w + legacy_count d\<rparr>)
                else w\<lparr>reads := reads w + legacy_count d\<rparr>)"
proof -
  from assms(2) have "distinct (map fst ([] @ d))" by (simp add: dict_ok_def)
  from migrate_in_place [OF this, of False w]
  have m: "migrate d d False w =
     (migrated_items (clock w) (reads w) d, (\<exists>item\<in>set d. is_list (snd item)),
      w\<lparr>reads := reads w + legacy_count d\<rparr>)" by simp
  from assms(3) have "migrated_items (clock w) (reads w) d \<noteq> []"
    using migrated_items_length [of "clock w" "reads w" d] by (metis length_0_conv)
  with m assms(1) show ?thesis
    by (simp add: load_conversations_def load_try_def json_load_def items_def)
qed

lemma is_list_iff: "is_list v \<longleftrightarrow> (\<exists>ms. v = JList ms)"
  by (cases v) (simp_all add: is_list_def)

lemma legacy_count_spelled:
  "legacy_count d = length (filter (\<lambda>item. \<exists>ms. snd item = JList ms) d)"
  by (simp add: legacy_count_def is_list_iff)

lemma canonical_iff:
  "canonical v \<longleftrightarrow>
     (\<exists>ts ms. v = JDict [(''created_at'', JStr ts), (''messages'', JList ms)]
             \<or> v = JDict [(''messages'', JList ms), (''created_at'', JStr ts)])"
proof
  assume c: "canonical v"
  then obtain r where v: "v = JDict r" by (cases v) (simp_all add: canonical_def)
  with c obtain ts ms where
    g: "map_of r ''created_at'' = Some (JStr ts)" "map_of r ''messages'' = Some (JList ms)"
    and l: "length r = 2"
    by (auto simp: canonical_def dict_get_def split: option.splits json.splits)
  from l obtain a b where r: "r = [a, b]"
    by (auto simp: numeral_2_eq_2 length_Suc_conv)
  obtain k1 v1 k2 v2 where ab: "a = (k1, v1)" "b = (k2, v2)" by (cases a, cases b)
  from g r ab show "\<exists>ts ms. v = JDict [(''created_at'', JStr ts), (''messages'', JList ms)]
             \<or> v = JDict [(''messages'', JList ms), (''created_at'', JStr ts)]"
    unfolding v by (auto split: if_splits)
next
  assume "\<exists>ts ms. v = JDict [(''created_at'', JStr ts), (''messages'', JList ms)]
             \<or> v = JDict [(''messages'', JList ms), (''created_at'', JStr ts)]"
  then show "canonical v" by (auto simp: canonical_def dict_get_def)
qed

text \<open>
  C2. When the history file holds a store with legacy entries, loading keeps every chat
  name in its place; it replaces every bare list by the record
  \<^verbatim>\<open>{"created_at": t, "messages": the list}\<close>, the list unchanged and \<open>t\<close> the clock
  reading taken for that entry during the load (one reading per legacy entry, in
  order); it leaves every other entry as it was, and writes the result to the history
  file at once, leaving no temporary file. Saving the loaded store writes the same
  store. All its chats are canonical when every entry was a bare list or canonical
  already.
\<close>

theorem load_migrates_legacy:
  assumes "files w ''chats.json'' = Some (Document (JDict d))"
      and "distinct (map fst d)"
      and "\<exists>item\<in>set d. \<exists>ms. snd item = JList ms"
  shows "\<exists>d' w'. load_conversations w = Inr (d', w')
           \<and> map fst d' = map fst d
           \<and> (\<forall>i<length d. \<forall>ms. snd (d ! i) = JList ms \<longrightarrow>
                 snd (d' ! i) =
                   JDict [(''created_at'',
                           JStr (clock w (reads w
                                   + length (filter (\<lambda>item. \<exists>ms'. snd item = JList ms')
                                               (take i d))))),
                          (''messages'', JList ms)])
           \<and> (\<forall>i<length d. (\<forall>ms. snd (d ! i) \<noteq> JList ms) \<longrightarrow> d' ! i = d ! i)
           \<and> reads w' = reads w + length (filter (\<lambda>item. \<exists>ms'. snd item = JList ms') d)
           \<and> files w' ''chats.json'' = Some (Document (JDict d'))
           \<and> files w' ''chats.json.tmp'' = None
           \<and> files (save_conversations d' w') ''chats.json'' = Some (Document (JDict d'))
           \<and> ((\<forall>item\<in>set d. (\<exists>ms. snd item = JList ms) \<or> canonical (snd item))
                \<longrightarrow> (\<forall>item\<in>set d'. canonical (snd item)))"
proof -
  let ?d' = "migrated_items (clock w) (reads w) d"
  let ?w' = "save_conversations ?d' (w\<lparr>reads := reads w + legacy_count d\<rparr>)"
  from assms(3) have ne: "d \<noteq> []" by auto
  from assms(3) have leg: "\<exists>item\<in>set d. is_list (snd item)" by (simp add: is_list_iff)
  from assms(1) have f: "files w CHAT_HISTORY_FILE = Some (Document (JDict d))"
    by (simp add: CHAT_HISTORY_FILE_def)
  from assms(2) have ok: "dict_ok d" by (simp add: dict_ok_def)
  have l: "load_conversations w = Inr (?d', ?w')"
    using load_document [OF f ok ne] leg by simp
  have nth: "?d' ! i =
               (if is_list (snd (d ! i))
                then (fst (d ! i),
                      conversation (clock w (reads w + legacy_count (take i d))) (snd (d ! i)))
                else d ! i)" if "i < length d" for i
    using that by (rule migrated_items_nth)
  have wrapped: "\<forall>i<length d. \<forall>ms. snd (d ! i) = JList ms \<longrightarrow>
                 snd (?d' ! i) =
                   JDict [(''created_at'',
                           JStr (clock w (reads w
                                   + length (filter (\<lambda>item. \<exists>ms'. snd item = JList ms')
                                               (take i d))))),
                          (''messages'', JList ms)]"
    by (simp add: nth is_list_iff conversation_def legacy_count_spelled)
  have kept: "\<forall>i<length d. (\<forall>ms. snd (d ! i) \<noteq> JList ms) \<longrightarrow> ?d' ! i = d ! i"
    by (simp add: nth is_list_iff)
  have canon: "\<forall>item\<in>set ?d'. canonical (snd item)"
    if all: "\<forall>item\<in>set d. (\<exists>ms. snd item = JList ms) \<or> canonical (snd item)"
  proof
    fix item assume "item \<in> set ?d'"
    then obtain i where i: "i < length d" "item = ?d' ! i"
      by (metis in_set_conv_nth migrated_items_length)
    with all have "is_list (snd (d ! i)) \<or> canonical (snd (d ! i))"
      by (simp add: is_list_iff)
    with i nth [OF i(1)] show "canonical (snd item)"
      by (auto simp: canonical_conversation)
  qed
  have files: "files ?w' ''chats.json'' = Some (Document (JDict ?d'))"
    "files ?w' ''chats.json.tmp'' = None"
    "files (save_conversations ?d' ?w') ''chats.json'' = Some (Document (JDict ?d'))"
    using saved_file [of ?d'] saved_tmp [of ?d'] by (simp_all add: CHAT_HISTORY_FILE_def)
  show ?thesis
    using l wrapped kept canon files
    by (intro exI [of _ ?d'] exI [of _ ?w'])
       (simp add: migrated_items_keys legacy_count_spelled)
qed


lemma list_of_length_3: "length xs = 3 \<Longrightarrow> xs = [xs ! 0, xs ! 1, xs ! 2]"
  by (auto simp: numeral_3_eq_3 length_Suc_conv)

theorem load_migrates_legacy_witness:
  "\<exists>d' w'. load_conversations
              (sample_world\<lparr>files := [''chats.json'' \<mapsto> Document (JDict sample_legacy)]\<rparr>)
            = Inr (d', w')
     \<and> d' = [(''Chat 1'',
               JDict [(''created_at'', JStr ''2024-01-01T00:00:00''),
                      (''messages'', JList [sample_message])]),
              (''Chat 2'',
               JDict [(''created_at'', JStr ''2023-05-05T10:00:00''), (''messages'', JList [])]),
              (''Chat 3'',
               JDict [(''created_at'', JStr ''2024-01-01T00:00:01''), (''messages'', JList [])])]
     \<and> reads w' = 2
     \<and> files w' ''chats.json'' = Some (Document (JDict d'))
     \<and> files w' ''chats.json.tmp'' = None"
proof -
  let ?w = "sample_world\<lparr>files := [''chats.json'' \<mapsto> Document (JDict sample_legacy)]\<rparr>"
  have h1: "files ?w ''chats.json'' = Some (Document (JDict sample_legacy))" by simp
  have h2: "distinct (map fst sample_legacy)" by (simp add: sample_legacy_def)
  have h3: "\<exists>item\<in>set sample_legacy. \<exists>ms. snd item = JList ms"
    by (simp add: sample_legacy_def)
  from load_migrates_legacy [OF h1 h2 h3] obtain d' w' where
    l: "load_conversations ?w = Inr (d', w')" and
    k: "map fst d' = map fst sample_legacy" and
    n: "\<forall>i<length sample_legacy. \<forall>ms. snd (sample_legacy ! i) = JList ms \<longrightarrow>
          snd (d' ! i) =
            JDict [(''created_at'',
                    JStr (clock ?w (reads ?w
                            + length (filter (\<lambda>item. \<exists>ms'. snd item = JList ms')
                                        (take i sample_legacy))))),
                   (''messages'', JList ms)]" and
    o: "\<forall>i<length sample_legacy. (\<forall>ms. snd (sample_legacy ! i) \<noteq> JList ms)
          \<longrightarrow> d' ! i = sample_legacy ! i" and
    r: "reads w' = reads ?w
          + length (filter (\<lambda>item. \<exists>ms'. snd item = JList ms') sample_legacy)" and
    f: "files w' ''chats.json'' = Some (Document (JDict d'))"
       "files w' ''chats.json.tmp'' = None"
    by blast
  from k have "length (map fst d') = length (map fst sample_legacy)" by simp
  then have len: "length d' = 3" by (simp add: sample_legacy_def)
  from k have "map fst d' ! 0 = ''Chat 1''" "map fst d' ! 2 = ''Chat 3''"
    by (simp_all add: sample_legacy_def)
  with len have fsts: "fst (d' ! 0) = ''Chat 1''" "fst (d' ! 2) = ''Chat 3''"
    by simp_all
  from n have s0: "snd (d' ! 0) =
      JDict [(''created_at'', JStr ''2024-01-01T00:00:00''), (''messages'', JList [sample_message])]"
    by (simp add: sample_legacy_def sample_world_def sample_clock_def str_nat_unfold_small
          digit_def)
  from n have s2: "snd (d' ! 2) =
      JDict [(''created_at'', JStr ''2024-01-01T00:00:01''), (''messages'', JList [])]"
    by (simp add: sample_legacy_def sample_world_def sample_clock_def str_nat_unfold_small
          digit_def)
  from o have d1: "d' ! 1 = (''Chat 2'',
      JDict [(''created_at'', JStr ''2023-05-05T10:00:00''), (''messages'', JList [])])"
    by (simp add: sample_legacy_def)
  from fsts s0 s2 have d02: "d' ! 0 = (''Chat 1'',
      JDict [(''created_at'', JStr ''2024-01-01T00:00:00''), (''messages'', JList [sample_message])])"
    "d' ! 2 = (''Chat 3'',
      JDict [(''created_at'', JStr ''2024-01-01T00:00:01''), (''messages'', JList [])])"
    by (simp_all add: prod_eq_iff)
  from list_of_length_3 [OF len] d02 d1 have "d' =
     [(''Chat 1'',
       JDict [(''created_at'', JStr ''2024-01-01T00:00:00''),
              (''messages'', JList [sample_message])]),
      (''Chat 2'',
       JDict [(''created_at'', JStr ''2023-05-05T10:00:00''), (''messages'', JList [])]),
      (''Chat 3'',
       JDict [(''created_at'', JStr ''2024-01-01T00:00:01''), (''messages'', JList [])])]"
    by simp
  moreover from r have "reads w' = 2"
    by (simp add: sample_legacy_def sample_world_def)
  ultimately show ?thesis using l f by blast
qed


section \<open>The store is never empty\<close>

lemma load_try_result: "load_try c w = Inr (d, w') \<Longrightarrow> d \<noteq> []"
proof (cases "json_load c")
  case (Inl e)
  assume "load_try c w = Inr (d, w')"
  with Inl show ?thesis by (simp add: load_try_def)
next
  case (Inr data)
  assume r: "load_try c w = Inr (d, w')"
  show ?thesis
  proof (cases "items data")
    case (Inl e)
    with Inr r show ?thesis by (simp add: load_try_def)
  next
    case its: (Inr its)
    obtain d1 m1 w1 where "migrate its its False w = (d1, m1, w1)"
      by (cases "migrate its its False w")
    with Inr its r show ?thesis
      by (auto simp: load_try_def default_conversations_def datetime_now_isoformat_def
               split: if_splits)
  qed
qed

lemma load_try_returns:
  "c = Document (JDict data) \<Longrightarrow> \<exists>d w'. load_try c w = Inr (d, w')"
  by (cases "migrate data data False w")
     (simp add: load_try_def json_load_def items_def default_conversations_def
        datetime_now_isoformat_def)

lemma load_try_caught:
  "c \<noteq> Undecodable \<Longrightarrow> c \<noteq> Too_deep \<Longrightarrow> c \<noteq> Huge_integer \<Longrightarrow>
   load_try c w = Inl e \<Longrightarrow> caught e"
proof (cases c)
  case (Document j)
  assume "load_try c w = Inl e"
  with Document show ?thesis
    by (cases j)
       (auto simp: load_try_def json_load_def items_def caught_def split: prod.splits)
qed (auto simp: load_try_def json_load_def caught_def)

lemma load_nonempty: "load_conversations w = Inr (d, w') \<Longrightarrow> d \<noteq> []"
proof (cases "files w CHAT_HISTORY_FILE")
  case None
  assume "load_conversations w = Inr (d, w')"
  with None show ?thesis
    by (auto simp: load_conversations_def default_conversations_def datetime_now_isoformat_def)
next
  case (Some c)
  assume r: "load_conversations w = Inr (d, w')"
  show ?thesis
  proof (cases "load_try c w")
    case (Inl e)
    with Some r show ?thesis
      by (auto simp: load_conversations_def default_conversations_def
            datetime_now_isoformat_def split: if_splits)
  next
    case (Inr res)
    with Some r have "load_try c w = Inr (d, w')" by (simp add: load_conversations_def)
    then show ?thesis by (rule load_try_result)
  qed
qed

lemma load_returns:
  assumes "files w CHAT_HISTORY_FILE \<notin> {Some Undecodable, Some Too_deep, Some Huge_integer}"
  shows "\<exists>d w'. load_conversations w = Inr (d, w')"
proof (cases "files w CHAT_HISTORY_FILE")
  case None
  then show ?thesis
    by (simp add: load_conversations_def default_conversations_def datetime_now_isoformat_def)
next
  case (Some c)
  with assms have c: "c \<noteq> Undecodable" "c \<noteq> Too_deep" "c \<noteq> Huge_integer" by auto
  show ?thesis
  proof (cases "load_try c w")
    case (Inl e)
    with load_try_caught [OF c Inl] Some show ?thesis
      by (simp add: load_conversations_def default_conversations_def datetime_now_isoformat_def)
  next
    case (Inr res)
    with Some show ?thesis by (cases res) (simp add: load_conversations_def)
  qed
qed

lemma dict_setitem_not_Nil: "dict_setitem d k v \<noteq> []"
  by (cases d) (auto split: if_splits)

lemma dict_pop_length: "dict_pop d k = Inr (v, d') \<Longrightarrow> length d = Suc (length d')"
  by (induction d arbitrary: d') (auto split: if_splits sum.splits)

lemma delete_last_rejected:
  "length (conversations s) = 1 \<Longrightarrow>
   delete_chat_button name s w =
     Inr (s, w, [St_toast (warning_sign @ '' Cannot delete the last chat.'')])"
  by (simp add: delete_chat_button_def)

lemma cancel_check_conversations:
  "cancel_check cb (s, w, ns) = (s', w', ns') \<Longrightarrow> conversations s' = conversations s"
  by (auto simp: cancel_check_def split: if_splits)

lemma rename_form_conversations:
  assumes "rename_form n sb cb s w = Inr (s', w', ns)"
  shows "conversations s' = conversations s
         \<or> conversations s' \<noteq> []"
proof (cases "show_rename_dialog_for s")
  case None
  with assms show ?thesis by (simp add: rename_form_def)
next
  case (Some old)
  show ?thesis
  proof (cases "old \<noteq> [] \<and> sb \<and> n \<noteq> [] \<and> n \<noteq> old \<and> \<not> dict_contains (conversations s) n")
    case True
    with assms Some show ?thesis
      by (cases "dict_pop (conversations s) old")
         (auto simp: rename_form_def Let_def dict_setitem_not_Nil)
  next
    case False
    with assms Some have "conversations s' = conversations s"
      by (auto simp: rename_form_def dest: cancel_check_conversations split: if_splits)
    then show ?thesis ..
  qed
qed

lemma new_chat_nonempty: "conversations (fst (new_chat_button s w)) \<noteq> []"
  by (simp add: new_chat_button_def datetime_now_isoformat_def Let_def dict_setitem_not_Nil)

lemma delete_keeps_nonempty:
  assumes "conversations s \<noteq> []" "delete_chat_button n s w = Inr (s', w', ns)"
  shows "conversations s' \<noteq> []"
proof (cases "length (conversations s) > 1")
  case False
  with assms show ?thesis by (auto simp: delete_chat_button_def)
next
  case True
  with assms obtain v where "dict_pop (conversations s) n = Inr (v, conversations s')"
    by (auto simp: delete_chat_button_def dict_delitem_def split: sum.splits)
  from dict_pop_length [OF this] True show ?thesis by auto
qed

lemma handle_keeps_nonempty:
  assumes "conversations s \<noteq> []" "handle e s w = Inr (s', w', ns)"
  shows "conversations s' \<noteq> []"
proof (cases e)
  case New_chat
  with assms(2) have "s' = fst (new_chat_button s w)"
    by (auto simp: handle_def split: prod.splits)
  then show ?thesis by (simp add: new_chat_nonempty)
next
  case (Select n)
  with assms show ?thesis by (auto simp: handle_def select_button_def)
next
  case (Open_rename n)
  with assms show ?thesis by (auto simp: handle_def rename_dialog_button_def)
next
  case (Delete n)
  with assms show ?thesis by (auto simp: handle_def dest: delete_keeps_nonempty)
next
  case (Rename_form n sb cb)
  with assms(2) have "rename_form n sb cb s w = Inr (s', w', ns)" by (simp add: handle_def)
  from rename_form_conversations [OF this] assms(1) show ?thesis
    by auto
qed

lemma init_session_nonempty:
  assumes "init_session w = Inr (s0, w0)"
  shows "conversations s0 \<noteq> [] \<and> dict_contains (conversations s0) (current_chat s0)"
proof (cases "load_conversations w")
  case (Inl e)
  with assms show ?thesis by (simp add: init_session_def)
next
  case (Inr res)
  obtain d w' where res: "res = (d, w')" by (cases res)
  with Inr have "d \<noteq> []" by (auto dest: load_nonempty)
  then obtain k v d' where "d = (k, v) # d'" by (cases d) auto
  with Inr res assms show ?thesis
    by (auto simp: init_session_def first_key_def dict_keys_def dict_contains_def)
qed

text \<open>
  C4. Every store that loading returns has at least one conversation, and loading does
  return unless the file cannot be read as text or exceeds the interpreter's limits;
  so has every session that starts. Deleting when exactly one conversation exists
  changes nothing and shows the toast that the last chat cannot be deleted. No action
  of the sidebar or of the rename form takes a store with a conversation to one without.
\<close>

theorem store_never_empty:
  "(load_conversations w = Inr (d, w1) \<longrightarrow> d \<noteq> [])
   \<and> (files w CHAT_HISTORY_FILE \<notin> {Some Undecodable, Some Too_deep, Some Huge_integer} \<longrightarrow>
        (\<exists>d w1. load_conversations w = Inr (d, w1) \<and> d \<noteq> []))
   \<and> (init_session w = Inr (s0, w0) \<longrightarrow>
        conversations s0 \<noteq> [] \<and> dict_contains (conversations s0) (current_chat s0))
   \<and> (length (conversations s) = 1 \<longrightarrow>
        delete_chat_button name s w =
          Inr (s, w, [St_toast (warning_sign @ '' Cannot delete the last chat.'')]))
   \<and> (conversations s \<noteq> [] \<and> handle e s w = Inr (s', w', ns) \<longrightarrow> conversations s' \<noteq> [])"
  using load_nonempty [of w] load_returns [of w] init_session_nonempty [of w s0 w0]
    delete_last_rejected [of s name w] handle_keeps_nonempty [of s e w s' w' ns]
  by blast

theorem store_never_empty_witness:
  "length (conversations (sample_session\<lparr>conversations := [hd sample_store]\<rparr>)) = 1
   \<and> delete_chat_button ''Chat 1'' (sample_session\<lparr>conversations := [hd sample_store]\<rparr>)
         sample_world
       = Inr (sample_session\<lparr>conversations := [hd sample_store]\<rparr>, sample_world,
              [St_toast (warning_sign @ '' Cannot delete the last chat.'')])
   \<and> handle (Delete ''Chat 2'') sample_session sample_world
       = Inr (sample_session\<lparr>conversations := [sample_store ! 0, sample_store ! 2]\<rparr>,
              save_conversations [sample_store ! 0, sample_store ! 2] sample_world, [])
   \<and> [sample_store ! 0, sample_store ! 2] \<noteq> []
   \<and> load_conversations sample_world
       = Inr ([(''Chat 1'',
                JDict [(''created_at'', JStr ''2024-01-01T00:00:00''), (''messages'', JList [])])],
              sample_world\<lparr>reads := 1\<rparr>)
   \<and> [(''Chat 1'',
         JDict [(''created_at'', JStr ''2024-01-01T00:00:00''), (''messages'', JList [])])] \<noteq> []"
proof -
  let ?s = "sample_session\<lparr>conversations := [hd sample_store]\<rparr>"
  let ?s' = "sample_session\<lparr>conversations := [sample_store ! 0, sample_store ! 2]\<rparr>"
  let ?w' = "save_conversations [sample_store ! 0, sample_store ! 2] sample_world"
  let ?d = "[(''Chat 1'',
              JDict [(''created_at'', JStr ''2024-01-01T00:00:00''), (''messages'', JList [])])]"
  have h: "length (conversations ?s) = 1" by simp
  have n: "conversations sample_session \<noteq> []" by (simp add: sample_session_def sample_store_def)
  have e: "handle (Delete ''Chat 2'') sample_session sample_world = Inr (?s', ?w', [])"
    by (simp add: handle_def delete_chat_button_def dict_delitem_def first_key_def dict_keys_def
          sample_session_def sample_store_def)
  have l: "load_conversations sample_world = Inr (?d, sample_world\<lparr>reads := 1\<rparr>)"
    by (simp add: load_conversations_def default_conversations_def datetime_now_isoformat_def
          conversation_def sample_world_def sample_clock_def str_nat_unfold_small digit_def)
  from store_never_empty
         [of sample_world ?d "sample_world\<lparr>reads := 1\<rparr>" _ _ ?s "''Chat 1''"
             "Delete ''Chat 2''" ?s' ?w' "[]"]
       store_never_empty
         [of sample_world ?d "sample_world\<lparr>reads := 1\<rparr>" _ _ sample_session "''Chat 1''"
             "Delete ''Chat 2''" ?s' ?w' "[]"]
       h n e l
  show ?thesis by simp
qed

section \<open>Renaming\<close>

text \<open>
  C5. With the rename form open for \<open>old\<close> and submitted with a name that is empty,
  equal to \<open>old\<close>, or already in use, the conversations, the current chat and the
  history file stay as they are, and the user sees the message of the case: an error
  for the empty name, a warning for the same name, an error for the name in use.
\<close>

theorem rename_rejected_unchanged:
  assumes "show_rename_dialog_for s = Some old" and "old \<noteq> []"
      and "new = [] \<or> new = old \<or> dict_contains (conversations s) new"
  shows "\<exists>s'. rename_form new True cancel s w =
                 Inr (s', w,
                      [if new = [] then St_error ''Chat name cannot be empty.''
                       else if new = old then St_warning ''New name is the same as the old name.''
                       else St_error ''A chat with this name already exists.''])
              \<and> conversations s' = conversations s
              \<and> current_chat s' = current_chat s"
  using assms by (auto simp: rename_form_def cancel_check_def)




theorem rename_rejected_unchanged_witness:
  "show_rename_dialog_for sample_session = Some ''Chat 1''
   \<and> dict_contains (conversations sample_session) ''Chat 2''
   \<and> (\<exists>s'. rename_form ''Chat 2'' True False sample_session sample_world
               = Inr (s', sample_world, [St_error ''A chat with this name already exists.''])
            \<and> conversations s' = sample_store \<and> current_chat s' = ''Chat 1'')
   \<and> (\<exists>s'. rename_form ''Chat 1'' True False sample_session sample_world
               = Inr (s', sample_world, [St_warning ''New name is the same as the old name.''])
            \<and> conversations s' = sample_store \<and> current_chat s' = ''Chat 1'')
   \<and> (\<exists>s'. rename_form [] True False sample_session sample_world
               = Inr (s', sample_world, [St_error ''Chat name cannot be empty.''])
            \<and> conversations s' = sample_store \<and> current_chat s' = ''Chat 1'')"
proof -
  have h1: "show_rename_dialog_for sample_session = Some ''Chat 1''"
    by (simp add: sample_session_def)
  have h2: "''Chat 1'' \<noteq> []" by simp
  have h3: "dict_contains (conversations sample_session) ''Chat 2''"
    by (simp add: sample_session_def sample_store_def dict_contains_def)
  from rename_rejected_unchanged [OF h1 h2, of "''Chat 2''" False sample_world]
       rename_rejected_unchanged [OF h1 h2, of "''Chat 1''" False sample_world]
       rename_rejected_unchanged [OF h1 h2, of "[]" False sample_world]
       h1 h3
  show ?thesis by (simp add: sample_session_def)
qed

text \<open>What a successful rename returns.\<close>

lemma dict_pop_present:
  "distinct (map fst d) \<Longrightarrow> k \<in> set (map fst d) \<Longrightarrow>
   \<exists>v. map_of d k = Some v \<and> dict_pop d k = Inr (v, filter (\<lambda>item. fst item \<noteq> k) d)"
proof (induction d)
  case Nil
  then show ?case by simp
next
  case (Cons item d)
  obtain k' v' where item: "item = (k', v')" by (cases item)
  show ?case
  proof (cases "k' = k")
    case True
    with Cons.prems item have "filter (\<lambda>item. fst item \<noteq> k) d = d"
      by (auto simp: filter_id_conv)
    with True item show ?thesis by simp
  next
    case False
    with Cons item show ?thesis by auto
  qed
qed

lemma dict_setitem_fresh: "k \<notin> set (map fst d) \<Longrightarrow> dict_setitem d k v = d @ [(k, v)]"
  by (induction d) auto

lemma rename_form_success:
  assumes "show_rename_dialog_for s = Some old" and "old \<noteq> []"
      and "new \<noteq> []" and "new \<noteq> old"
      and "\<not> dict_contains (conversations s) new"
      and "dict_contains (conversations s) old"
      and "dict_ok (conversations s)"
  shows "\<exists>v. dict_get (conversations s) old = Some v \<and>
           rename_form new True cancel s w =
             Inr (s\<lparr>conversations :=
                       filter (\<lambda>item. fst item \<noteq> old) (conversations s) @ [(new, v)],
                     current_chat := (if current_chat s = old then new else current_chat s),
                     show_rename_dialog_for := None\<rparr>,
                  save_conversations
                    (filter (\<lambda>item. fst item \<noteq> old) (conversations s) @ [(new, v)]) w,
                  [])"
proof -
  let ?rest = "filter (\<lambda>item. fst item \<noteq> old) (conversations s)"
  from assms(6,7) obtain v where v: "map_of (conversations s) old = Some v"
    "dict_pop (conversations s) old = Inr (v, ?rest)"
    using dict_pop_present [of "conversations s" old]
    by (auto simp: dict_contains_def dict_ok_def)
  from assms(5) have "new \<notin> set (map fst ?rest)" by (auto simp: dict_contains_def)
  then have "dict_setitem ?rest new v = ?rest @ [(new, v)]" by (rule dict_setitem_fresh)
  with v assms(1-5) show ?thesis
    by (simp add: rename_form_def dict_get_def Let_def)
qed

lemma map_of_filter_other:
  "k \<noteq> old \<Longrightarrow> map_of (filter (\<lambda>item. fst item \<noteq> old) d) k = map_of d k"
  by (induction d) auto

lemma keys_filter_other:
  "map fst (filter (\<lambda>item. fst item \<noteq> old) d) = removeAll old (map fst d)"
  by (induction d) auto

text \<open>
  C6. With the rename form open for an existing chat \<open>old\<close> and submitted with a name
  that is not empty, differs from \<open>old\<close> and is not in use, the rename succeeds: the
  new name holds the record \<open>old\<close> held, \<open>old\<close> is gone, every other name holds what
  it held, the current chat becomes the new name exactly when it was \<open>old\<close>, and the
  store is written to the history file.
\<close>

theorem rename_moves_record:
  assumes "show_rename_dialog_for s = Some old" and "old \<noteq> []"
      and "new \<noteq> []" and "new \<noteq> old"
      and "\<not> dict_contains (conversations s) new"
      and "dict_contains (conversations s) old"
      and "dict_ok (conversations s)"
  shows "\<exists>s' w'. rename_form new True cancel s w = Inr (s', w', [])
           \<and> dict_get (conversations s') new = dict_get (conversations s) old
           \<and> dict_get (conversations s) old \<noteq> None
           \<and> \<not> dict_contains (conversations s') old
           \<and> (\<forall>k. k \<noteq> old \<and> k \<noteq> new \<longrightarrow>
                  dict_get (conversations s') k = dict_get (conversations s) k)
           \<and> current_chat s' = (if current_chat s = old then new else current_chat s)
           \<and> dict_ok (conversations s')
           \<and> files w' CHAT_HISTORY_FILE = Some (Document (JDict (conversations s')))"
proof -
  let ?rest = "filter (\<lambda>item. fst item \<noteq> old) (conversations s)"
  from rename_form_success [OF assms, of cancel w] obtain v where
    v: "dict_get (conversations s) old = Some v" and
    r: "rename_form new True cancel s w =
             Inr (s\<lparr>conversations := ?rest @ [(new, v)],
                     current_chat := (if current_chat s = old then new else current_chat s),
                     show_rename_dialog_for := None\<rparr>,
                  save_conversations (?rest @ [(new, v)]) w, [])"
    by blast
  have other: "map_of ?rest k = map_of (conversations s) k" if "k \<noteq> old" for k
    using that by (rule map_of_filter_other)
  have none: "map_of ?rest new = None"
    using assms(5) by (auto simp: dict_contains_def map_of_eq_None_iff)
  have "distinct (map fst ?rest)"
    using assms(7) by (simp add: dict_ok_def distinct_map_filter)
  with assms(5) have ok: "dict_ok (?rest @ [(new, v)])"
    by (auto simp: dict_ok_def dict_contains_def)
  show ?thesis
    using r v none other ok assms(4)
    by (auto simp: dict_get_def dict_contains_def map_add_def split: option.splits)
qed

lemma sample_rename_hyps:
  "show_rename_dialog_for sample_session = Some ''Chat 1''"
  "''Chat 1'' \<noteq> []" "''Work'' \<noteq> []" "''Work'' \<noteq> ''Chat 1''"
  "\<not> dict_contains (conversations sample_session) ''Work''"
  "dict_contains (conversations sample_session) ''Chat 1''"
  "dict_ok (conversations sample_session)"
  by (simp_all add: sample_session_def sample_store_def dict_contains_def dict_ok_def)

theorem rename_moves_record_witness:
  "\<exists>s' w'. rename_form ''Work'' True False sample_session sample_world = Inr (s', w', [])
     \<and> dict_get (conversations s') ''Work''
         = Some (conversation ''2024-01-01T00:00:00'' (JList [sample_message]))
     \<and> \<not> dict_contains (conversations s') ''Chat 1''
     \<and> dict_get (conversations s') ''Chat 2''
         = Some (conversation ''2024-03-01T00:00:00'' (JList []))
     \<and> current_chat s' = ''Work''"
proof -
  from rename_moves_record [OF sample_rename_hyps, of False sample_world]
  obtain s' w' where
    r: "rename_form ''Work'' True False sample_session sample_world = Inr (s', w', [])" and
    n: "dict_get (conversations s') ''Work'' = dict_get (conversations sample_session) ''Chat 1''" and
    g: "\<not> dict_contains (conversations s') ''Chat 1''" and
    o: "\<forall>k. k \<noteq> ''Chat 1'' \<and> k \<noteq> ''Work'' \<longrightarrow>
          dict_get (conversations s') k = dict_get (conversations sample_session) k" and
    c: "current_chat s' =
          (if current_chat sample_session = ''Chat 1'' then ''Work''
           else current_chat sample_session)"
    by blast
  from n have "dict_get (conversations s') ''Work''
         = Some (conversation ''2024-01-01T00:00:00'' (JList [sample_message]))"
    by (simp add: sample_session_def sample_store_def dict_get_def)
  moreover from o have "dict_get (conversations s') ''Chat 2''
         = Some (conversation ''2024-03-01T00:00:00'' (JList []))"
    by (simp add: sample_session_def sample_store_def dict_get_def)
  moreover from c have "current_chat s' = ''Work''" by (simp add: sample_session_def)
  ultimately show ?thesis using r g by blast
qed

section \<open>Creating a chat\<close>








section \<open>The chat list\<close>

lemma sortable_key: "sortable item \<Longrightarrow> created_at_key item = Inr (JStr (created_at_of item))"
  by (auto simp: sortable_def created_at_key_def created_at_of_def
           split: json.splits option.splits)

lemma sortable_keys:
  "list_all sortable convs \<Longrightarrow>
   created_at_keys convs = Inr (map (\<lambda>item. JStr (created_at_of item)) convs)"
  by (induction convs) (auto simp: sortable_key)

lemma str_keys_map: "str_keys (map (\<lambda>item. JStr (f item)) convs) = Some (map f convs)"
  by (induction convs) auto

lemma zip_map_self: "zip (map f xs) xs = map (\<lambda>x. (f x, x)) xs"
  by (induction xs) auto

lemma insort_key_decorated:
  "insort_key fst (f x, x) (map (\<lambda>x. (f x, x)) ys) = map (\<lambda>x. (f x, x)) (insort_key f x ys)"
  by (induction ys) auto

lemma sort_key_decorated:
  "sort_key fst (map (\<lambda>x. (f x, x)) ys) = map (\<lambda>x. (f x, x)) (sort_key f ys)"
  by (induction ys) (auto simp: insort_key_decorated)

lemma sorted_reverse_zip:
  "map snd (sorted_reverse fst (zip (map f xs) xs)) = sorted_reverse f xs"
proof -
  have "rev (zip (map f xs) xs) = map (\<lambda>x. (f x, x)) (rev xs)"
    by (simp add: zip_map_self rev_map)
  then have "sort_key fst (rev (zip (map f xs) xs)) = map (\<lambda>x. (f x, x)) (sort_key f (rev xs))"
    by (simp only: sort_key_decorated)
  then show ?thesis
    by (simp add: sorted_reverse_def rev_map [symmetric] comp_def)
qed

lemma sorted_chats_sortable:
  "list_all sortable convs \<Longrightarrow> sorted_chats convs = Inr (sorted_reverse created_at_of convs)"
  by (simp add: sorted_chats_def sortable_keys str_keys_map sorted_reverse_zip)

lemma sorted_reverse_mset: "mset (sorted_reverse f xs) = mset xs"
  by (simp add: sorted_reverse_def)

lemma sorted_reverse_descending: "sorted_wrt (\<lambda>a b. f b \<le> f a) (sorted_reverse f xs)"
proof -
  have "sorted (map f (sort_key f (rev xs)))" by (rule sorted_sort_key)
  then have "sorted_wrt (\<lambda>a b. f a \<le> f b) (sort_key f (rev xs))" by (simp add: sorted_map)
  then show ?thesis by (simp add: sorted_reverse_def sorted_wrt_rev)
qed

lemma sorted_reverse_stable:
  "filter (\<lambda>y. f y = k) (sorted_reverse f xs) = filter (\<lambda>y. f y = k) xs"
  by (simp add: sorted_reverse_def rev_filter [symmetric] sort_key_stable)

text \<open>
  C8. For a store of sortable conversations the chat list is a rearrangement of the
  store in descending order of creation time, and conversations of the same creation
  time stand in the order the store has them.
\<close>

theorem sorted_chats_descending_stable:
  assumes "list_all sortable convs"
  shows "\<exists>r. sorted_chats convs = Inr r
           \<and> mset r = mset convs
           \<and> sorted_wrt (\<lambda>a b. created_at_of b \<le> created_at_of a) r
           \<and> (\<forall>t. filter (\<lambda>item. created_at_of item = t) r
                    = filter (\<lambda>item. created_at_of item = t) convs)"
  using sorted_chats_sortable [OF assms]
  by (simp add: sorted_reverse_mset sorted_reverse_descending sorted_reverse_stable)

theorem sorted_chats_descending_stable_witness:
  "list_all sortable sample_store
   \<and> sorted_chats sample_store = Inr [sample_store ! 1, sample_store ! 0, sample_store ! 2]
   \<and> sorted_wrt (\<lambda>a b. created_at_of b \<le> created_at_of a)
        [sample_store ! 1, sample_store ! 0, sample_store ! 2]
   \<and> filter (\<lambda>item. created_at_of item = ''2024-01-01T00:00:00'')
        [sample_store ! 1, sample_store ! 0, sample_store ! 2]
       = [sample_store ! 0, sample_store ! 2]"
proof -
  have h: "list_all sortable sample_store"
    by (simp add: sample_store_def sortable_def conversation_def dict_get_def)
  have e: "sorted_chats sample_store = Inr [sample_store ! 1, sample_store ! 0, sample_store ! 2]"
    by code_simp
  have f: "filter (\<lambda>item. created_at_of item = ''2024-01-01T00:00:00'') sample_store
             = [sample_store ! 0, sample_store ! 2]"
    by (simp add: sample_store_def created_at_of_def conversation_def dict_get_def)
  from sorted_chats_descending_stable [OF h] e f h show ?thesis by auto
qed

section \<open>The responder answers with a string\<close>

lemma starts_with_iff: "starts_with xs ys \<longleftrightarrow> (\<exists>zs. ys = xs @ zs)"
  by (induction xs ys rule: starts_with.induct) auto

lemma str_in_iff: "str_in needle hay \<longleftrightarrow> (\<exists>a b. hay = a @ needle @ b)"
proof (induction hay)
  case Nil
  then show ?case by simp
next
  case (Cons y ys)
  show ?case
  proof
    assume "str_in needle (y # ys)"
    then consider "starts_with needle (y # ys)" | "str_in needle ys" by auto
    then show "\<exists>a b. y # ys = a @ needle @ b"
    proof cases
      case 1
      then obtain zs where "y # ys = needle @ zs" by (auto simp: starts_with_iff)
      then have "y # ys = [] @ needle @ zs" by simp
      then show ?thesis by blast
    next
      case 2
      with Cons.IH obtain a b where "ys = a @ needle @ b" by blast
      then have "y # ys = (y # a) @ needle @ b" by simp
      then show ?thesis by blast
    qed
  next
    assume "\<exists>a b. y # ys = a @ needle @ b"
    then obtain a b where ab: "y # ys = a @ needle @ b" by blast
    show "str_in needle (y # ys)"
    proof (cases a)
      case Nil
      with ab have "starts_with needle (y # ys)" by (auto simp: starts_with_iff)
      then show ?thesis by simp
    next
      case (Cons a0 a')
      with ab have "ys = a' @ needle @ b" by simp
      with Cons.IH have "str_in needle ys" by blast
      then show ?thesis by simp
    qed
  qed
qed

lemma starts_with_append: "starts_with xs (xs @ ys)"
  by (induction xs) auto

text \<open>
  What the responder returns in each case, with the texts written out.
\<close>

lemma responder_answers:
  "(API_KEY = None \<or> API_KEY = Some [] \<longrightarrow>
      get_gemini_response API_KEY generate_content prompt =
        Some ([CHR 0xE2, CHR 0x9D, CHR 0x8C]
              @ '' Error: GEMINI_API_KEY not found. Please set it in your environment.''))
   \<and> (API_KEY = Some k \<and> k \<noteq> [] \<and> generate_content k prompt = Response_text t \<longrightarrow>
        get_gemini_response API_KEY generate_content prompt = t)
   \<and> (API_KEY = Some k \<and> k \<noteq> [] \<and> generate_content k prompt = Raised e \<longrightarrow>
        get_gemini_response API_KEY generate_content prompt =
          Some ([CHR 0xE2, CHR 0x9A, CHR 0xA0, CHR 0xEF, CHR 0xB8, CHR 0x8F] @ '' Error: '' @ e @
                (if \<exists>a b. e = a @ ''API_KEY_INVALID'' @ b then
                   [CHR 0x0A] @ ''Reminder: Use a valid API key from Google AI Studio.''
                 else if \<exists>a b. e = a @ ''PERMISSION_DENIED'' @ b then
                   [CHR 0x0A] @ ''Your API key may not have access to Gemini API.''
                 else [])))"
  unfolding str_in_iff [symmetric]
  by (simp add: get_gemini_response_def Let_def missing_key_text_def cross_mark_def
        error_prefix_def warning_sign_def)

lemma responder_examples:
  "get_gemini_response None sample_api ''hi''
     = Some ([CHR 0xE2, CHR 0x9D, CHR 0x8C]
             @ '' Error: GEMINI_API_KEY not found. Please set it in your environment.'')"
  "get_gemini_response (Some []) sample_api ''hi''
     = Some ([CHR 0xE2, CHR 0x9D, CHR 0x8C]
             @ '' Error: GEMINI_API_KEY not found. Please set it in your environment.'')"
  "get_gemini_response (Some ''good'') sample_api ''hi'' = Some ''You said: hi''"
  "get_gemini_response (Some ''bad'') sample_api ''hi''
     = Some ([CHR 0xE2, CHR 0x9A, CHR 0xA0, CHR 0xEF, CHR 0xB8, CHR 0x8F]
             @ '' Error: 400 API_KEY_INVALID'' @ [CHR 0x0A]
             @ ''Reminder: Use a valid API key from Google AI Studio.'')"
  "get_gemini_response (Some ''denied'') sample_api ''hi''
     = Some ([CHR 0xE2, CHR 0x9A, CHR 0xA0, CHR 0xEF, CHR 0xB8, CHR 0x8F]
             @ '' Error: 403 PERMISSION_DENIED'' @ [CHR 0x0A]
             @ ''Your API key may not have access to Gemini API.'')"
  "get_gemini_response (Some ''slow'') sample_api ''hi''
     = Some ([CHR 0xE2, CHR 0x9A, CHR 0xA0, CHR 0xEF, CHR 0xB8, CHR 0x8F]
             @ '' Error: 504 deadline exceeded'')"
  by (simp_all add: get_gemini_response_def sample_api_def missing_key_text_def cross_mark_def
        error_prefix_def warning_sign_def)

text \<open>
  C9. The responder is to return a string for every prompt. It does so without a key,
  when the call raises, and when the response carries a text. When the response
  carries no text, \<^verbatim>\<open>response.text\<close> is \<^verbatim>\<open>None\<close> and the responder returns it as
  it is: here with a key and a client whose responses have no text, the result is
  \<^verbatim>\<open>None\<close>, not a string.
\<close>

theorem responder_returns_none:
  "get_gemini_response (Some ''good'') silent_api ''hi'' = None"
  by (simp add: get_gemini_response_def silent_api_def)

section \<open>Renaming and the order of the store\<close>

lemma sortable_snd: "sortable (k, v) = sortable (k', v)"
  by (simp add: sortable_def)

text \<open>
  C10. A successful rename takes the conversation out of its place and appends it under
  the new name: the names are the old ones without \<open>old\<close>, followed by the new name.
  So the renamed chat is not the first chat, the one a deletion makes current, unless
  it is the only one, and in the chat list it stands after every other chat of the same
  creation time.
\<close>

theorem rename_moves_to_end:
  assumes "show_rename_dialog_for s = Some old" and "old \<noteq> []"
      and "new \<noteq> []" and "new \<noteq> old"
      and "\<not> dict_contains (conversations s) new"
      and "dict_contains (conversations s) old"
      and "dict_ok (conversations s)"
  shows "\<exists>s' w' v. rename_form new True cancel s w = Inr (s', w', [])
           \<and> dict_get (conversations s) old = Some v
           \<and> conversations s' =
               filter (\<lambda>item. fst item \<noteq> old) (conversations s) @ [(new, v)]
           \<and> dict_keys (conversations s') = removeAll old (dict_keys (conversations s)) @ [new]
           \<and> (length (conversations s) > 1 \<longrightarrow> first_key (conversations s') \<noteq> Inr new)
           \<and> (list_all sortable (conversations s) \<longrightarrow>
                (\<exists>r. sorted_chats (conversations s') = Inr r
                   \<and> filter (\<lambda>item. created_at_of item = created_at_of (new, v)) r
                       = filter (\<lambda>item. created_at_of item = created_at_of (new, v))
                           (filter (\<lambda>item. fst item \<noteq> old) (conversations s))
                         @ [(new, v)]))"
proof -
  let ?rest = "filter (\<lambda>item. fst item \<noteq> old) (conversations s)"
  from rename_form_success [OF assms, of cancel w] obtain v where
    v: "dict_get (conversations s) old = Some v" and
    r: "rename_form new True cancel s w =
             Inr (s\<lparr>conversations := ?rest @ [(new, v)],
                     current_chat := (if current_chat s = old then new else current_chat s),
                     show_rename_dialog_for := None\<rparr>,
                  save_conversations (?rest @ [(new, v)]) w, [])"
    by blast
  let ?s' = "s\<lparr>conversations := ?rest @ [(new, v)],
                     current_chat := (if current_chat s = old then new else current_chat s),
                     show_rename_dialog_for := None\<rparr>"
  have keys: "dict_keys (?rest @ [(new, v)]) = removeAll old (dict_keys (conversations s)) @ [new]"
    by (simp add: dict_keys_def keys_filter_other)
  have first: "first_key (?rest @ [(new, v)]) \<noteq> Inr new" if "length (conversations s) > 1"
  proof -
    from assms(6,7) obtain v' where "dict_pop (conversations s) old = Inr (v', ?rest)"
      using dict_pop_present [of "conversations s" old]
      by (auto simp: dict_contains_def dict_ok_def)
    from dict_pop_length [OF this] that have "?rest \<noteq> []" by auto
    then obtain k u rest' where rest: "?rest = (k, u) # rest'" by (cases ?rest) auto
    then have "(k, u) \<in> set ?rest" by simp
    then have "k \<in> set (map fst (conversations s))" by force
    with assms(5) have "k \<noteq> new" by (auto simp: dict_contains_def)
    with rest show ?thesis by (simp add: first_key_def dict_keys_def)
  qed
  have sort: "\<exists>r. sorted_chats (?rest @ [(new, v)]) = Inr r
                   \<and> filter (\<lambda>item. created_at_of item = created_at_of (new, v)) r
                       = filter (\<lambda>item. created_at_of item = created_at_of (new, v)) ?rest
                         @ [(new, v)]"
    if all: "list_all sortable (conversations s)"
  proof -
    from v have "(old, v) \<in> set (conversations s)"
      by (simp add: dict_get_def map_of_SomeD)
    with all have "sortable (old, v)" by (simp add: list_all_iff)
    then have "sortable (new, v)" by (simp add: sortable_snd [of new v old])
    with all have "list_all sortable (?rest @ [(new, v)])" by (simp add: list_all_iff)
    then have "sorted_chats (?rest @ [(new, v)])
                 = Inr (sorted_reverse created_at_of (?rest @ [(new, v)]))"
      by (rule sorted_chats_sortable)
    then show ?thesis by (simp add: sorted_reverse_stable)
  qed
  show ?thesis
    using r v keys first sort by (intro exI [of _ ?s'] exI [of _ v]) simp
qed

theorem rename_moves_to_end_witness:
  "\<exists>s' w'. rename_form ''Work'' True False sample_session sample_world = Inr (s', w', [])
     \<and> dict_keys (conversations s') = [''Chat 2'', ''Chat 3'', ''Work'']
     \<and> first_key (conversations s') \<noteq> Inr ''Work''
     \<and> (\<exists>r. sorted_chats (conversations s') = Inr r
           \<and> filter (\<lambda>item. created_at_of item = ''2024-01-01T00:00:00'') r
               = [sample_store ! 2,
                  (''Work'', conversation ''2024-01-01T00:00:00'' (JList [sample_message]))])"
proof -
  let ?v = "conversation ''2024-01-01T00:00:00'' (JList [sample_message])"
  from rename_moves_to_end [OF sample_rename_hyps, of False sample_world]
  obtain s' w' v where
    r: "rename_form ''Work'' True False sample_session sample_world = Inr (s', w', [])" and
    v: "dict_get (conversations sample_session) ''Chat 1'' = Some v" and
    k: "dict_keys (conversations s')
          = removeAll ''Chat 1'' (dict_keys (conversations sample_session)) @ [''Work'']" and
    f: "length (conversations sample_session) > 1 \<longrightarrow> first_key (conversations s') \<noteq> Inr ''Work''" and
    s: "list_all sortable (conversations sample_session) \<longrightarrow>
          (\<exists>r. sorted_chats (conversations s') = Inr r
             \<and> filter (\<lambda>item. created_at_of item = created_at_of (''Work'', v)) r
                 = filter (\<lambda>item. created_at_of item = created_at_of (''Work'', v))
                     (filter (\<lambda>item. fst item \<noteq> ''Chat 1'') (conversations sample_session))
                   @ [(''Work'', v)])"
    by blast
  from v have v': "v = ?v" by (simp add: sample_session_def sample_store_def dict_get_def)
  from k have "dict_keys (conversations s') = [''Chat 2'', ''Chat 3'', ''Work'']"
    by (simp add: sample_session_def sample_store_def dict_keys_def)
  moreover from f have "first_key (conversations s') \<noteq> Inr ''Work''"
    by (simp add: sample_session_def sample_store_def)
  moreover have "list_all sortable (conversations sample_session)"
    by (simp add: sample_session_def sample_store_def sortable_def conversation_def dict_get_def)
  with s have "\<exists>r. sorted_chats (conversations s') = Inr r
           \<and> filter (\<lambda>item. created_at_of item = ''2024-01-01T00:00:00'') r
               = [sample_store ! 2, (''Work'', ?v)]"
    unfolding v'
    by (simp add: sample_session_def sample_store_def created_at_of_def conversation_def
          dict_get_def)
  ultimately show ?thesis using r by blast
qed


end
